theory Spec2Isabelle
  imports Main "HOL-Library.AList" "HOL-Library.Word"
begin

section \<open>The chat server of src/chat-server/server.py\<close>

text \<open>
  The server keeps one dictionary, \<open>self.clients\<close>, from user names to sockets. Every
  connection is served by \<open>handle_client\<close>, which reads chunks of bytes, decodes them,
  cuts the text into lines and runs one command per line. All uses of the dictionary
  are made under \<open>self.lock\<close>, so each locked block is modelled as one function on the
  shared state.
\<close>

subsection \<open>Python strings and bytes\<close>

text \<open>
  A Python \<open>str\<close> is a sequence of Unicode code points, a \<open>bytes\<close> object a sequence of
  octets. String literals of the source are written with \<open>str\<close>.
\<close>

type_synonym ustr = "nat list"
type_synonym bytes = "8 word list"

definition str :: "string \<Rightarrow> ustr" where
  "str s = map of_char s"

text \<open>\<open>str.isspace\<close> for one code point: the white space that \<open>str.strip()\<close> removes.\<close>

definition isspace :: "nat \<Rightarrow> bool" where
  "isspace c = ((0x09 \<le> c \<and> c \<le> 0x0D) \<or> (0x1C \<le> c \<and> c \<le> 0x20) \<or> c = 0x85 \<or> c = 0xA0
     \<or> c = 0x1680 \<or> (0x2000 \<le> c \<and> c \<le> 0x200A) \<or> c = 0x2028 \<or> c = 0x2029
     \<or> c = 0x202F \<or> c = 0x205F \<or> c = 0x3000)"

text \<open>\<open>s.strip()\<close>\<close>

definition strip :: "ustr \<Rightarrow> ustr" where
  "strip s = rev (dropWhile isspace (rev (dropWhile isspace s)))"

text \<open>\<open>s.split(sep, 1)\<close> for a separator of one character: one part when \<open>sep\<close> does not
  occur, otherwise the text before the first \<open>sep\<close> and the text after it.\<close>

definition split1 :: "nat \<Rightarrow> ustr \<Rightarrow> ustr list" where
  "split1 sep s = (if sep \<in> set s
     then [takeWhile (\<lambda>c. c \<noteq> sep) s, tl (dropWhile (\<lambda>c. c \<noteq> sep) s)]
     else [s])"

text \<open>\<open>sep.join(xs)\<close>\<close>

fun join :: "ustr \<Rightarrow> ustr list \<Rightarrow> ustr" where
  "join sep [] = []"
| "join sep [x] = x"
| "join sep (x # y # ys) = x @ sep @ join sep (y # ys)"

text \<open>
  \<open>data.decode('utf-8')\<close> with the default strict error handling: \<open>None\<close> stands for
  \<open>UnicodeDecodeError\<close>. A sequence is accepted when it is well formed: no overlong
  form, no surrogate, nothing above U+10FFFF, no truncated character.
\<close>

definition is_cont :: "nat \<Rightarrow> bool" where
  "is_cont n = (0x80 \<le> n \<and> n \<le> 0xBF)"

definition second_lo :: "nat \<Rightarrow> nat" where
  "second_lo n0 = (if n0 = 0xE0 then 0xA0 else if n0 = 0xF0 then 0x90 else 0x80)"

definition second_hi :: "nat \<Rightarrow> nat" where
  "second_hi n0 = (if n0 = 0xED then 0x9F else if n0 = 0xF4 then 0x8F else 0xBF)"

fun utf8_decode :: "bytes \<Rightarrow> ustr option" where
  "utf8_decode [] = Some []"
| "utf8_decode (b0 # bs) =
    (if unat b0 < 0x80 then map_option (Cons (unat b0)) (utf8_decode bs)
     else if 0xC2 \<le> unat b0 \<and> unat b0 \<le> 0xDF then
       (case bs of
          b1 # r \<Rightarrow>
            if is_cont (unat b1)
            then map_option (Cons ((unat b0 - 0xC0) * 0x40 + (unat b1 - 0x80))) (utf8_decode r)
            else None
        | _ \<Rightarrow> None)
     else if 0xE0 \<le> unat b0 \<and> unat b0 \<le> 0xEF then
       (case bs of
          b1 # b2 # r \<Rightarrow>
            if second_lo (unat b0) \<le> unat b1 \<and> unat b1 \<le> second_hi (unat b0) \<and> is_cont (unat b2)
            then map_option
                   (Cons ((unat b0 - 0xE0) * 0x1000 + (unat b1 - 0x80) * 0x40 + (unat b2 - 0x80)))
                   (utf8_decode r)
            else None
        | _ \<Rightarrow> None)
     else if 0xF0 \<le> unat b0 \<and> unat b0 \<le> 0xF4 then
       (case bs of
          b1 # b2 # b3 # r \<Rightarrow>
            if second_lo (unat b0) \<le> unat b1 \<and> unat b1 \<le> second_hi (unat b0)
               \<and> is_cont (unat b2) \<and> is_cont (unat b3)
            then map_option
                   (Cons ((unat b0 - 0xF0) * 0x40000 + (unat b1 - 0x80) * 0x1000
                          + (unat b2 - 0x80) * 0x40 + (unat b3 - 0x80)))
                   (utf8_decode r)
            else None
        | _ \<Rightarrow> None)
     else None)"

text \<open>
  \<open>str.upper()\<close> is Unicode case mapping, which the server takes from the Python
  library; the model takes it as the parameter \<open>up\<close> of the functions that parse a line.
  On the letters of ASCII it is the function below, which the concrete runs use.
\<close>

definition ascii_upper :: "ustr \<Rightarrow> ustr" where
  "ascii_upper s = map (\<lambda>c. if 0x61 \<le> c \<and> c \<le> 0x7A then c - 0x20 else c) s"

subsection \<open>Sockets and the shared state\<close>

type_synonym sock = nat

text \<open>An exception that leaves a block is the outcome \<open>Raised\<close>.\<close>

datatype outcome = Ok | Raised

text \<open>
  What the server does to the outside is kept as a trace: each call of \<open>sendall\<close> with its
  socket and text (the bytes on the wire are the UTF-8 encoding of the text), delivered or
  failed, and each call of \<open>close\<close>.
\<close>

datatype event = Delivered sock ustr | SendFailed sock ustr | Closed sock

text \<open>
  \<open>clients\<close> is \<open>self.clients\<close>, a dictionary in insertion order; \<open>broken\<close> are the sockets
  on which \<open>sendall\<close> raises.
\<close>

record world =
  clients :: "(ustr \<times> sock) list"
  broken :: "sock set"
  trace :: "event list"

definition sendall :: "world \<Rightarrow> sock \<Rightarrow> ustr \<Rightarrow> outcome \<times> world" where
  "sendall w s text =
    (if s \<in> broken w then (Raised, w\<lparr>trace := trace w @ [SendFailed s text]\<rparr>)
     else (Ok, w\<lparr>trace := trace w @ [Delivered s text]\<rparr>))"

text \<open>\<open>client_socket.close()\<close> inside \<open>try: ... except: pass\<close>: an error of close is dropped.\<close>

definition close_socket :: "world \<Rightarrow> sock \<Rightarrow> world" where
  "close_socket w s = w\<lparr>trace := trace w @ [Closed s]\<rparr>"

text \<open>\<open>k in d\<close> for the dictionary.\<close>

definition has_key :: "(ustr \<times> sock) list \<Rightarrow> ustr \<Rightarrow> bool" where
  "has_key d k = (k \<in> set (map fst d))"

subsection \<open>broadcast (lines 139 to 151)\<close>

text \<open>
  The first loop sends to every entry but the excluded one and collects the users whose
  send raised; it does not touch the dictionary.
\<close>

fun broadcast_loop ::
  "(ustr \<times> sock) list \<Rightarrow> ustr \<Rightarrow> ustr option \<Rightarrow> world \<Rightarrow> ustr list \<Rightarrow> world \<times> ustr list" where
  "broadcast_loop [] message exclude_user w dead_clients = (w, dead_clients)"
| "broadcast_loop ((user, s) # items) message exclude_user w dead_clients =
    (if Some user \<noteq> exclude_user then
       (case sendall w s (message @ str ''\<newline>'') of
          (Ok, w') \<Rightarrow> broadcast_loop items message exclude_user w' dead_clients
        | (Raised, w') \<Rightarrow> broadcast_loop items message exclude_user w' (dead_clients @ [user]))
     else broadcast_loop items message exclude_user w dead_clients)"

text \<open>The second loop: \<open>del self.clients[user]\<close>, which raises \<open>KeyError\<close> on a missing key.\<close>

fun cleanup :: "(ustr \<times> sock) list \<Rightarrow> ustr list \<Rightarrow> outcome \<times> (ustr \<times> sock) list" where
  "cleanup d [] = (Ok, d)"
| "cleanup d (user # users) =
    (if has_key d user then cleanup (AList.delete user d) users else (Raised, d))"

definition broadcast :: "world \<Rightarrow> ustr \<Rightarrow> ustr option \<Rightarrow> outcome \<times> world" where
  "broadcast w message exclude_user =
    (case broadcast_loop (clients w) message exclude_user w [] of
       (w', dead_clients) \<Rightarrow>
         (case cleanup (clients w') dead_clients of
            (oc, d) \<Rightarrow> (oc, w'\<lparr>clients := d\<rparr>)))"

subsection \<open>disconnect_user (lines 133 to 137)\<close>

text \<open>
  The removal of the key and the broadcast are two locked blocks. The function runs the
  second right after the first, with no step of another connection between them.
\<close>

definition disconnect_user :: "world \<Rightarrow> ustr \<Rightarrow> outcome \<times> world" where
  "disconnect_user w username =
    broadcast
      (if has_key (clients w) username
       then w\<lparr>clients := AList.delete username (clients w)\<rparr> else w)
      (str ''INFO '' @ username @ str '' disconnected'') None"

subsection \<open>handle_dm (lines 114 to 131)\<close>

definition handle_dm :: "world \<Rightarrow> ustr \<Rightarrow> ustr \<Rightarrow> sock \<Rightarrow> outcome \<times> world" where
  "handle_dm w sender args sender_socket =
    (let parts = split1 0x20 args in
     if length parts < 2 then sendall w sender_socket (str ''ERR usage: DM <username> <message>\<newline>'')
     else
       (let target_username = parts ! 0; message = parts ! 1 in
        case map_of (clients w) target_username of
          Some target_socket \<Rightarrow>
            (Ok, snd (sendall w target_socket
                       (str ''DM '' @ sender @ str '' '' @ message @ str ''\<newline>'')))
        | None \<Rightarrow> sendall w sender_socket (str ''ERR user-not-found\<newline>'')))"

subsection \<open>handle_client (lines 42 to 112)\<close>

text \<open>\<open>if username\<close>: the local variable is \<open>None\<close> or a string, and the empty string is false.\<close>

fun logged_in :: "ustr option \<Rightarrow> bool" where
  "logged_in None = False"
| "logged_in (Some u) = (u \<noteq> [])"

text \<open>
  An answer to the client: \<open>client_socket.sendall(...)\<close>, after which the loop goes on
  with the next line. When \<open>sendall\<close> raises, the exception leaves the loop.
\<close>

definition respond :: "ustr option \<Rightarrow> world \<Rightarrow> sock \<Rightarrow> ustr \<Rightarrow> outcome \<times> ustr option \<times> world" where
  "respond username w s text = (case sendall w s text of (oc, w') \<Rightarrow> (oc, username, w'))"

text \<open>
  Lines 68 to 102: one command, already split into the verb \<open>cmd\<close> and the argument
  \<open>arg\<close>. The result is the outcome, the new value of \<open>username\<close> and the new state.
\<close>

definition handle_command ::
  "ustr option \<Rightarrow> ustr \<Rightarrow> ustr \<Rightarrow> world \<Rightarrow> sock \<Rightarrow> outcome \<times> ustr option \<times> world" where
  "handle_command username cmd arg w client_socket =
    (if \<not> logged_in username then
       (if cmd = str ''LOGIN'' then
          (if arg = [] then respond username w client_socket (str ''ERR invalid-username\<newline>'')
           else
             (let new_username = strip arg in
              if 0x20 \<in> set new_username \<or> length new_username < 1
              then respond username w client_socket (str ''ERR invalid-username\<newline>'')
              else if has_key (clients w) new_username
              then respond username w client_socket (str ''ERR username-taken\<newline>'')
              else respond (Some new_username)
                     (w\<lparr>clients := AList.update new_username client_socket (clients w)\<rparr>)
                     client_socket (str ''OK\<newline>'')))
        else respond username w client_socket (str ''ERR login-required\<newline>''))
     else
       (if cmd = str ''MSG'' then
          (if arg = [] then (Ok, username, w)
           else
             (case broadcast w (str ''MSG '' @ the username @ str '' '' @ arg) username of
                (oc, w') \<Rightarrow> (oc, username, w')))
        else if cmd = str ''WHO'' then
          respond username w client_socket
            (str ''USERS '' @ join (str '', '') (map fst (clients w)) @ str ''\<newline>'')
        else if cmd = str ''PING'' then respond username w client_socket (str ''PONG\<newline>'')
        else if cmd = str ''DM'' then
          (case handle_dm w (the username) arg client_socket of (oc, w') \<Rightarrow> (oc, username, w'))
        else respond username w client_socket (str ''ERR unknown-command\<newline>'')))"

text \<open>Lines 60 to 66: a line is stripped, an empty command is skipped, the rest is split
  at the first space into the verb, put into upper case, and the argument.\<close>

definition handle_line ::
  "(ustr \<Rightarrow> ustr) \<Rightarrow> ustr option \<Rightarrow> ustr \<Rightarrow> world \<Rightarrow> sock \<Rightarrow> outcome \<times> ustr option \<times> world" where
  "handle_line up username line w client_socket =
    (let command = strip line in
     if command = [] then (Ok, username, w)
     else
       (let parts = split1 0x20 command;
            cmd = up (parts ! 0);
            arg = (if length parts > 1 then parts ! 1 else [])
        in handle_command username cmd arg w client_socket))"

text \<open>
  Lines 58 and 59: \<open>while '\n' in buffer: line, buffer = buffer.split('\n', 1)\<close>, with the
  body of the loop run on each line. An exception ends the loop.
\<close>

function handle_buffer ::
  "(ustr \<Rightarrow> ustr) \<Rightarrow> ustr option \<Rightarrow> ustr \<Rightarrow> world \<Rightarrow> sock \<Rightarrow> outcome \<times> ustr option \<times> ustr \<times> world" where
  "handle_buffer up username buffer w client_socket =
    (if 0x0A \<in> set buffer then
       (case handle_line up username (split1 0x0A buffer ! 0) w client_socket of
          (Ok, username', w') \<Rightarrow>
            handle_buffer up username' (split1 0x0A buffer ! 1) w' client_socket
        | (Raised, username', w') \<Rightarrow> (Raised, username', split1 0x0A buffer ! 1, w'))
     else (Ok, username, buffer, w))"
  by pat_completeness auto
termination
proof (relation "measure (\<lambda>(up, username, buffer, w, client_socket). length buffer)")
  show "wf (measure (\<lambda>(up, username, buffer, w, client_socket). length buffer))"
    by simp
next
  fix up :: "ustr \<Rightarrow> ustr" and username :: "ustr option" and buffer :: ustr and w :: world
    and client_socket :: sock and x :: "outcome \<times> ustr option \<times> world" and a :: outcome
    and b :: "ustr option \<times> world" and username' :: "ustr option" and w' :: world
  assume nl: "0x0A \<in> set buffer"
  have "length (dropWhile (\<lambda>c. c \<noteq> 0x0A) buffer) \<le> length buffer"
    by (rule length_dropWhile_le)
  moreover have "dropWhile (\<lambda>c. c \<noteq> 0x0A) buffer \<noteq> []"
    using nl by simp
  ultimately have "length (tl (dropWhile (\<lambda>c. c \<noteq> 0x0A) buffer)) < length buffer"
    by (cases "dropWhile (\<lambda>c. c \<noteq> 0x0A) buffer") auto
  then show "((up, username', split1 0x0A buffer ! 1, w', client_socket),
              (up, username, buffer, w, client_socket))
             \<in> measure (\<lambda>(up, username, buffer, w, client_socket). length buffer)"
    using nl by (simp add: split1_def)
qed

declare handle_buffer.simps [simp del]

text \<open>
  Lines 48 to 56: the chunks that \<open>recv\<close> returns, in order. An empty chunk is the end of
  the stream (\<open>break\<close>); a chunk that does not decode is skipped (\<open>continue\<close>); the end of
  the list is the point where the connection ends (\<open>recv\<close> raises or the peer is gone).
\<close>

fun recv_loop ::
  "(ustr \<Rightarrow> ustr) \<Rightarrow> ustr option \<Rightarrow> ustr \<Rightarrow> world \<Rightarrow> sock \<Rightarrow> bytes list \<Rightarrow> ustr option \<times> world" where
  "recv_loop up username buffer w client_socket [] = (username, w)"
| "recv_loop up username buffer w client_socket (data # chunks) =
    (if data = [] then (username, w)
     else
       (case utf8_decode data of
          None \<Rightarrow> recv_loop up username buffer w client_socket chunks
        | Some text \<Rightarrow>
            (case handle_buffer up username (buffer @ text) w client_socket of
               (Ok, username', buffer', w') \<Rightarrow> recv_loop up username' buffer' w' client_socket chunks
             | (Raised, username', buffer', w') \<Rightarrow> (username', w'))))"

text \<open>Lines 106 to 112, the \<open>finally\<close> block.\<close>

definition teardown :: "ustr option \<Rightarrow> world \<Rightarrow> sock \<Rightarrow> outcome \<times> world" where
  "teardown username w client_socket =
    (if logged_in username then
       (case disconnect_user w (the username) of
          (Ok, w') \<Rightarrow> (Ok, close_socket w' client_socket)
        | (Raised, w') \<Rightarrow> (Raised, w'))
     else (Ok, close_socket w client_socket))"

definition handle_client :: "(ustr \<Rightarrow> ustr) \<Rightarrow> world \<Rightarrow> sock \<Rightarrow> bytes list \<Rightarrow> outcome \<times> world" where
  "handle_client up w client_socket chunks =
    (case sendall w client_socket (str ''Welcome! Please login with: LOGIN <username>\<newline>'') of
       (Raised, w') \<Rightarrow> teardown None w' client_socket
     | (Ok, w') \<Rightarrow>
         (case recv_loop up None [] w' client_socket chunks of
            (username, w'') \<Rightarrow> teardown username w'' client_socket))"

subsection \<open>Describing runs\<close>

text \<open>The event that one call of \<open>sendall\<close> leaves in the trace.\<close>

definition send_event :: "world \<Rightarrow> ustr \<Rightarrow> sock \<Rightarrow> event" where
  "send_event w text s = (if s \<in> broken w then SendFailed s text else Delivered s text)"

text \<open>Concrete states for the runs below: no client; three clients, the second with a
  socket that no longer accepts writes.\<close>

definition w0 :: world where
  "w0 = \<lparr>clients = [], broken = {}, trace = []\<rparr>"

definition w_abc :: world where
  "w_abc = \<lparr>clients = [(str ''alice'', 1), (str ''bob'', 2), (str ''carol'', 3)],
            broken = {2}, trace = []\<rparr>"

text \<open>
  The bytes of \<open>LOGIN caf\<close>, the two bytes \<open>C3 A9\<close> of the letter e with an acute accent
  (U+00E9) and a newline, cut between the two bytes of that letter.
\<close>

definition login_cafe_1 :: bytes where
  "login_cafe_1 = [0x4C, 0x4F, 0x47, 0x49, 0x4E, 0x20, 0x63, 0x61, 0x66, 0xC3]"

definition login_cafe_2 :: bytes where
  "login_cafe_2 = [0xA9, 0x0A]"

text \<open>The bytes of \<open>PING\<close> and a newline, and the byte \<open>FF\<close>, which no UTF-8 text contains.\<close>

definition ping_line :: bytes where
  "ping_line = [0x50, 0x49, 0x4E, 0x47, 0x0A]"

definition bad_byte :: bytes where
  "bad_byte = [0xFF]"

section \<open>Properties\<close>

subsection \<open>Sending and broadcasting\<close>

lemma sendall_eq:
  "sendall w s t = (if s \<in> broken w then Raised else Ok, w\<lparr>trace := trace w @ [send_event w t s]\<rparr>)"
  by (simp add: sendall_def send_event_def)

lemma send_event_trace_upd [simp]: "send_event (w\<lparr>trace := t\<rparr>) = send_event w"
  by (simp add: send_event_def fun_eq_iff)

lemma send_event_clients_upd [simp]: "send_event (w\<lparr>clients := d\<rparr>) = send_event w"
  by (simp add: send_event_def fun_eq_iff)

lemma broadcast_loop_eq:
  "broadcast_loop items msg ex w dead =
     (w\<lparr>trace := trace w @ map (send_event w (msg @ str ''\<newline>''))
                            (map snd (filter (\<lambda>(u, s). Some u \<noteq> ex) items))\<rparr>,
      dead @ map fst (filter (\<lambda>(u, s). Some u \<noteq> ex \<and> s \<in> broken w) items))"
proof (induction items arbitrary: w dead)
  case Nil
  show ?case by simp
next
  case (Cons p items)
  obtain u s where p: "p = (u, s)" by (cases p)
  show ?case
    unfolding p by (simp add: Cons.IH sendall_eq)
qed

lemma cleanup_ok:
  "distinct users \<Longrightarrow> set users \<subseteq> set (map fst d) \<Longrightarrow>
   cleanup d users = (Ok, filter (\<lambda>(u, s). u \<notin> set users) d)"
proof (induction users arbitrary: d)
  case Nil
  show ?case by simp
next
  case (Cons user users)
  have key: "has_key d user" using Cons.prems(2) by (simp add: has_key_def)
  have sub: "set users \<subseteq> set (map fst (AList.delete user d))"
  proof
    fix x assume x: "x \<in> set users"
    then have "x \<noteq> user" using Cons.prems(1) by auto
    moreover from x Cons.prems(2) have "x \<in> set (map fst d)" by auto
    ultimately show "x \<in> set (map fst (AList.delete user d))"
      by (simp add: AList.delete_keys)
  qed
  have "cleanup (AList.delete user d) users
        = (Ok, filter (\<lambda>(u, s). u \<notin> set users) (AList.delete user d))"
    using Cons.prems(1) sub by (intro Cons.IH) simp_all
  moreover have "filter (\<lambda>(u, s). u \<notin> set users) (AList.delete user d)
        = filter (\<lambda>(u, s). u \<notin> set (user # users)) d"
    by (auto simp: AList.delete_eq intro: filter_cong)
  ultimately show ?case using key by simp
qed

lemma filter_dead_keys:
  assumes "distinct (map fst d)"
  shows "filter (\<lambda>(u, s). u \<notin> set (map fst (filter P d))) d = filter (\<lambda>x. \<not> P x) d"
proof (rule filter_cong[OF refl])
  fix x assume x: "x \<in> set d"
  obtain u s where xs: "x = (u, s)" by (cases x)
  have "u \<in> set (map fst (filter P d)) \<longleftrightarrow> P (u, s)"
  proof
    assume "u \<in> set (map fst (filter P d))"
    then obtain s' where in': "(u, s') \<in> set d" and P': "P (u, s')" by auto
    from assms in' x[unfolded xs] have "s' = s" by (rule eq_key_imp_eq_value)
    with P' show "P (u, s)" by simp
  next
    assume "P (u, s)"
    with x xs show "u \<in> set (map fst (filter P d))" by force
  qed
  then show "(case x of (u, s) \<Rightarrow> u \<notin> set (map fst (filter P d))) = (\<not> P x)"
    by (simp add: xs)
qed

lemma broadcast_eq:
  assumes "distinct (map fst (clients w))"
  shows "broadcast w msg ex =
     (Ok, w\<lparr>clients := filter (\<lambda>(u, s). \<not> (Some u \<noteq> ex \<and> s \<in> broken w)) (clients w),
            trace := trace w @ map (send_event w (msg @ str ''\<newline>''))
                            (map snd (filter (\<lambda>(u, s). Some u \<noteq> ex) (clients w)))\<rparr>)"
proof -
  let ?P = "\<lambda>(u, s). Some u \<noteq> ex \<and> s \<in> broken w"
  let ?dead = "map fst (filter ?P (clients w))"
  have d: "distinct ?dead" using assms by (rule distinct_map_filter)
  have sub: "set ?dead \<subseteq> set (map fst (clients w))" by auto
  have "cleanup (clients w) ?dead = (Ok, filter (\<lambda>(u, s). u \<notin> set ?dead) (clients w))"
    using d sub by (rule cleanup_ok)
  also have "filter (\<lambda>(u, s). u \<notin> set ?dead) (clients w) = filter (\<lambda>x. \<not> ?P x) (clients w)"
    using assms by (rule filter_dead_keys)
  also have "\<dots> = filter (\<lambda>(u, s). \<not> (Some u \<noteq> ex \<and> s \<in> broken w)) (clients w)"
    by (simp add: case_prod_unfold)
  finally show ?thesis
    by (simp add: broadcast_def broadcast_loop_eq)
qed

lemma send_event_text_inj: "send_event w a s = send_event w b s' \<Longrightarrow> a = b"
  by (simp add: send_event_def split: if_splits)

text \<open>
  C6. In a broadcast the loop over the sessions leaves the dictionary as it is; the
  users whose send failed are removed after the loop. A failed send does not stop the
  loop: every session but the excluded one has its send, in the order of the dictionary,
  and the call returns normally. Nothing but the message itself is sent, so no
  \<open>INFO <name> disconnected\<close> line is produced for a removed session.
\<close>

theorem C6_broadcast_eviction:
  assumes "distinct (map fst (clients w))"
  shows "clients (fst (broadcast_loop (clients w) message exclude_user w [])) = clients w
    \<and> broadcast w message exclude_user =
        (Ok, w\<lparr>clients := filter (\<lambda>(u, s). \<not> (Some u \<noteq> exclude_user \<and> s \<in> broken w)) (clients w),
               trace := trace w @ map (send_event w (message @ str ''\<newline>''))
                         (map snd (filter (\<lambda>(u, s). Some u \<noteq> exclude_user) (clients w)))\<rparr>)
    \<and> (\<forall>v s. message \<noteq> str ''INFO '' @ v @ str '' disconnected'' \<longrightarrow>
          send_event w (str ''INFO '' @ v @ str '' disconnected\<newline>'') s
            \<notin> set (drop (length (trace w)) (trace (snd (broadcast w message exclude_user)))))"
proof (intro conjI allI impI)
  show "clients (fst (broadcast_loop (clients w) message exclude_user w [])) = clients w"
    by (simp add: broadcast_loop_eq)
next
  show "broadcast w message exclude_user =
        (Ok, w\<lparr>clients := filter (\<lambda>(u, s). \<not> (Some u \<noteq> exclude_user \<and> s \<in> broken w)) (clients w),
               trace := trace w @ map (send_event w (message @ str ''\<newline>''))
                         (map snd (filter (\<lambda>(u, s). Some u \<noteq> exclude_user) (clients w)))\<rparr>)"
    using assms by (rule broadcast_eq)
next
  fix v s
  assume ne: "message \<noteq> str ''INFO '' @ v @ str '' disconnected''"
  show "send_event w (str ''INFO '' @ v @ str '' disconnected\<newline>'') s
            \<notin> set (drop (length (trace w)) (trace (snd (broadcast w message exclude_user))))"
  proof
    assume "send_event w (str ''INFO '' @ v @ str '' disconnected\<newline>'') s
            \<in> set (drop (length (trace w)) (trace (snd (broadcast w message exclude_user))))"
    then obtain s' where
      "send_event w (str ''INFO '' @ v @ str '' disconnected\<newline>'') s
        = send_event w (message @ str ''\<newline>'') s'"
      by (auto simp: broadcast_eq[OF assms])
    then have "str ''INFO '' @ v @ str '' disconnected\<newline>'' = message @ str ''\<newline>''"
      by (rule send_event_text_inj)
    then have "message = str ''INFO '' @ v @ str '' disconnected''"
      by (simp add: str_def)
    with ne show False by simp
  qed
qed

theorem C6_broadcast_eviction_witness:
  "distinct (map fst (clients w_abc))
   \<and> broadcast w_abc (str ''hi'') (Some (str ''alice'')) =
       (Ok, \<lparr>clients = [(str ''alice'', 1), (str ''carol'', 3)], broken = {2},
             trace = [SendFailed 2 (str ''hi\<newline>''), Delivered 3 (str ''hi\<newline>'')]\<rparr>)"
proof -
  have d: "distinct (map fst (clients w_abc))"
    by (simp add: w_abc_def str_def)
  show ?thesis
    using d C6_broadcast_eviction[OF d, of "str ''hi''" "Some (str ''alice'')"]
    by (simp add: w_abc_def str_def send_event_def)
qed

subsection \<open>Direct messages\<close>

lemma split1_no_sep: "sep \<notin> set s \<Longrightarrow> split1 sep s = [s]"
  by (simp add: split1_def)

lemma split1_at_sep: "sep \<notin> set t \<Longrightarrow> split1 sep (t @ sep # m) = [t, m]"
  by (induction t) (simp_all add: split1_def)

lemma handle_dm_no_space:
  "0x20 \<notin> set arg \<Longrightarrow>
   handle_dm w sender arg s = sendall w s (str ''ERR usage: DM <username> <message>\<newline>'')"
  by (simp add: handle_dm_def split1_no_sep)

lemma handle_dm_split:
  "0x20 \<notin> set t \<Longrightarrow>
   handle_dm w sender (t @ 0x20 # m) s =
     (case map_of (clients w) t of
        Some ts \<Rightarrow> (Ok, w\<lparr>trace := trace w @ [send_event w (str ''DM '' @ sender @ str '' '' @ m @ str ''\<newline>'') ts]\<rparr>)
      | None \<Rightarrow> sendall w s (str ''ERR user-not-found\<newline>''))"
  by (simp add: handle_dm_def split1_at_sep sendall_eq split: option.splits)

text \<open>
  C1, as the code has it. A \<open>DM\<close> whose argument has no space is answered with the usage
  line on the sender's socket and nothing else happens: no lookup, no delivery, the
  dictionary as before. The test of the code is the number of parts only, so an
  argument that starts with a space is not a usage error: its target is the empty name,
  which is looked up, and the sender is told \<open>ERR user-not-found\<close> when it is absent.
\<close>

theorem C1_dm_usage:
  "(0x20 \<notin> set arg \<longrightarrow>
      handle_dm w sender arg s =
        (if s \<in> broken w then Raised else Ok,
         w\<lparr>trace := trace w @ [send_event w (str ''ERR usage: DM <username> <message>\<newline>'') s]\<rparr>))
   \<and> (map_of (clients w) [] = None \<longrightarrow>
      handle_dm w sender (0x20 # m) s =
        (if s \<in> broken w then Raised else Ok,
         w\<lparr>trace := trace w @ [send_event w (str ''ERR user-not-found\<newline>'') s]\<rparr>))"
  using handle_dm_split[of "[]" w sender m s]
  by (simp add: handle_dm_no_space sendall_eq)

text \<open>
  The theorem at \<open>DM bob\<close> and at an argument with a leading space, sent by alice.
\<close>

theorem C1_dm_usage_witness:
  "0x20 \<notin> set (str ''bob'')
   \<and> handle_dm w_abc (str ''alice'') (str ''bob'') 1 =
       (Ok, w_abc\<lparr>trace := [Delivered 1 (str ''ERR usage: DM <username> <message>\<newline>'')]\<rparr>)
   \<and> map_of (clients w_abc) [] = None
   \<and> handle_dm w_abc (str ''alice'') (0x20 # str ''hi'') 1 =
       (Ok, w_abc\<lparr>trace := [Delivered 1 (str ''ERR user-not-found\<newline>'')]\<rparr>)"
  using C1_dm_usage[of "str ''bob''" w_abc "str ''alice''" 1 "str ''hi''"]
  by (simp add: w_abc_def str_def send_event_def)

text \<open>
  C1 as stated fails for an empty target: the line \<open>DM  hi\<close> (two spaces) has the
  argument \<open> hi\<close>, which splits into an empty target and the message \<open>hi\<close>; the
  answer is \<open>ERR user-not-found\<close>, not the usage line.
\<close>

theorem C1_dm_usage_counterexample:
  "split1 0x20 (str '' hi'') = [[], str ''hi'']
   \<and> handle_line ascii_upper (Some (str ''alice'')) (str ''DM  hi'') w_abc 1 =
       (Ok, Some (str ''alice''),
        w_abc\<lparr>trace := [Delivered 1 (str ''ERR user-not-found\<newline>'')]\<rparr>)
   \<and> handle_dm w_abc (str ''alice'') (str '' hi'') 1
       \<noteq> sendall w_abc 1 (str ''ERR usage: DM <username> <message>\<newline>'')"
  by (simp add: handle_line_def handle_command_def handle_dm_def split1_def strip_def isspace_def
      ascii_upper_def sendall_def w_abc_def str_def)

text \<open>
  C8. A \<open>DM\<close> with target \<open>t\<close> and message \<open>m\<close> (the argument is \<open>t\<close>, a space,
  \<open>m\<close>): when \<open>t\<close> is registered the only effect is one send of \<open>DM <sender> <m>\<close> on
  the socket registered for \<open>t\<close>; when it is not, the only effect is one send of
  \<open>ERR user-not-found\<close> on the sender's socket. The dictionary is unchanged in both.
\<close>

theorem C8_dm_routing:
  "0x20 \<notin> set t \<longrightarrow>
     (\<forall>ts. map_of (clients w) t = Some ts \<longrightarrow>
        handle_dm w sender (t @ 0x20 # m) s =
          (Ok, w\<lparr>trace := trace w @
                  [send_event w (str ''DM '' @ sender @ str '' '' @ m @ str ''\<newline>'') ts]\<rparr>))
   \<and> (map_of (clients w) t = None \<longrightarrow>
        handle_dm w sender (t @ 0x20 # m) s =
          (if s \<in> broken w then Raised else Ok,
           w\<lparr>trace := trace w @ [send_event w (str ''ERR user-not-found\<newline>'') s]\<rparr>))
   \<and> clients (snd (handle_dm w sender (t @ 0x20 # m) s)) = clients w"
  by (simp add: handle_dm_split sendall_eq split: option.splits)

text \<open>
  The theorem at alice's \<open>DM carol secret\<close> and \<open>DM ghost hi\<close>.
\<close>

theorem C8_dm_routing_witness:
  "0x20 \<notin> set (str ''carol'') \<and> map_of (clients w_abc) (str ''carol'') = Some 3
   \<and> handle_dm w_abc (str ''alice'') (str ''carol secret'') 1 =
       (Ok, w_abc\<lparr>trace := [Delivered 3 (str ''DM alice secret\<newline>'')]\<rparr>)
   \<and> 0x20 \<notin> set (str ''ghost'') \<and> map_of (clients w_abc) (str ''ghost'') = None
   \<and> handle_dm w_abc (str ''alice'') (str ''ghost hi'') 1 =
       (Ok, w_abc\<lparr>trace := [Delivered 1 (str ''ERR user-not-found\<newline>'')]\<rparr>)"
  using C8_dm_routing[of "str ''carol''" w_abc "str ''alice''" "str ''secret''" 1]
    C8_dm_routing[of "str ''ghost''" w_abc "str ''alice''" "str ''hi''" 1]
  by (simp add: w_abc_def str_def send_event_def)

text \<open>
  C9. When the send to a registered target fails, the failure is dropped: the call
  returns normally, the one event is the failed send on the target's socket (nothing is
  delivered to anyone, the sender included), and the target is still registered.
\<close>

theorem C9_dm_failed_send:
  "0x20 \<notin> set t \<and> map_of (clients w) t = Some ts \<and> ts \<in> broken w \<longrightarrow>
     handle_dm w sender (t @ 0x20 # m) s =
       (Ok, w\<lparr>trace := trace w @
               [SendFailed ts (str ''DM '' @ sender @ str '' '' @ m @ str ''\<newline>'')]\<rparr>)
     \<and> clients (snd (handle_dm w sender (t @ 0x20 # m) s)) = clients w
     \<and> map_of (clients (snd (handle_dm w sender (t @ 0x20 # m) s))) t = Some ts"
  by (simp add: handle_dm_split send_event_def)

text \<open>
  The theorem at alice's \<open>DM bob hi\<close>, bob's socket being broken.
\<close>

theorem C9_dm_failed_send_witness:
  "0x20 \<notin> set (str ''bob'') \<and> map_of (clients w_abc) (str ''bob'') = Some 2 \<and> 2 \<in> broken w_abc
   \<and> handle_dm w_abc (str ''alice'') (str ''bob hi'') 1 =
       (Ok, w_abc\<lparr>trace := [SendFailed 2 (str ''DM alice hi\<newline>'')]\<rparr>)"
  using C9_dm_failed_send[of "str ''bob''" w_abc 2 "str ''alice''" "str ''hi''" 1]
  by (simp add: w_abc_def str_def)

subsection \<open>LOGIN\<close>

lemma respond_eq:
  "respond username w s text =
     (if s \<in> broken w then Raised else Ok, username, w\<lparr>trace := trace w @ [send_event w text s]\<rparr>)"
  by (simp add: respond_def sendall_eq)


lemma login_invalid:
  assumes "\<not> logged_in username" and "arg = [] \<or> strip arg = [] \<or> 0x20 \<in> set (strip arg)"
  shows "handle_command username (str ''LOGIN'') arg w s =
           respond username w s (str ''ERR invalid-username\<newline>'')"
  using assms by (auto simp: handle_command_def Let_def)

lemma login_taken:
  assumes "\<not> logged_in username" and "arg \<noteq> []" and "strip arg \<noteq> []"
    and "0x20 \<notin> set (strip arg)" and "has_key (clients w) (strip arg)"
  shows "handle_command username (str ''LOGIN'') arg w s =
           respond username w s (str ''ERR username-taken\<newline>'')"
  using assms by (simp add: handle_command_def Let_def)


text \<open>
  C3, as the code has it. The name that is checked is the argument with the white space
  around it removed. A \<open>LOGIN\<close> from a connection that is not logged in, whose argument is
  empty or whose stripped argument is empty or has a space, is answered with
  \<open>ERR invalid-username\<close>; the dictionary and the connection's \<open>username\<close> stay as they are.
\<close>

theorem C3_login_invalid:
  "\<not> logged_in username \<and> (arg = [] \<or> strip arg = [] \<or> 0x20 \<in> set (strip arg)) \<longrightarrow>
     handle_command username (str ''LOGIN'') arg w s =
       (if s \<in> broken w then Raised else Ok, username,
        w\<lparr>trace := trace w @ [send_event w (str ''ERR invalid-username\<newline>'') s]\<rparr>)"
  by (auto simp: login_invalid respond_eq)

text \<open>The theorem at \<open>LOGIN bob smith\<close> from a new connection on socket 4.\<close>

theorem C3_login_invalid_witness:
  "\<not> logged_in None \<and> 0x20 \<in> set (strip (str ''bob smith''))
   \<and> handle_command None (str ''LOGIN'') (str ''bob smith'') w_abc 4 =
       (Ok, None, w_abc\<lparr>trace := [Delivered 4 (str ''ERR invalid-username\<newline>'')]\<rparr>)"
  using C3_login_invalid[where username = None and arg = "str ''bob smith''" and w = w_abc and s = 4]
  by (simp add: w_abc_def str_def send_event_def strip_def isspace_def)

text \<open>
  C3 as stated fails for an argument whose only spaces are in front: the line
  \<open>LOGIN  bob\<close> (two spaces) has the argument \<open> bob\<close>, which contains a space, and
  registers the name \<open>bob\<close> with the answer \<open>OK\<close>.
\<close>

theorem C3_login_invalid_counterexample:
  "split1 0x20 (strip (str ''LOGIN  bob'')) = [str ''LOGIN'', str '' bob'']
   \<and> 0x20 \<in> set (str '' bob'')
   \<and> handle_line ascii_upper None (str ''LOGIN  bob'') w0 0 =
       (Ok, Some (str ''bob''),
        \<lparr>clients = [(str ''bob'', 0)], broken = {}, trace = [Delivered 0 (str ''OK\<newline>'')]\<rparr>)"
  by (simp add: handle_line_def handle_command_def respond_def split1_def strip_def isspace_def
      ascii_upper_def sendall_def has_key_def w0_def str_def Let_def)

subsection \<open>Names and the list of WHO\<close>






subsection \<open>Commands of a logged-in connection, and the end of a connection\<close>

lemma handle_dm_clients: "clients (snd (handle_dm w sender args s)) = clients w"
  by (simp add: handle_dm_def sendall_eq Let_def split: option.splits)

lemma msg_eq:
  assumes "u \<noteq> []" and "arg \<noteq> []" and "distinct (map fst (clients w))"
  shows "handle_command (Some u) (str ''MSG'') arg w s =
     (Ok, Some u,
      w\<lparr>clients := filter (\<lambda>(v, sk). \<not> (v \<noteq> u \<and> sk \<in> broken w)) (clients w),
        trace := trace w @ map (send_event w (str ''MSG '' @ u @ str '' '' @ arg @ str ''\<newline>''))
                  (map snd (filter (\<lambda>(v, sk). v \<noteq> u) (clients w)))\<rparr>)"
  using assms(1,2) by (simp add: handle_command_def broadcast_eq[OF assms(3)])

lemma disconnect_user_eq:
  assumes "distinct (map fst (clients w))"
  shows "disconnect_user w u =
     (Ok, w\<lparr>clients := filter (\<lambda>(v, sk). v \<noteq> u \<and> sk \<notin> broken w) (clients w),
            trace := trace w @ map (send_event w (str ''INFO '' @ u @ str '' disconnected\<newline>''))
                      (map snd (filter (\<lambda>(v, sk). v \<noteq> u) (clients w)))\<rparr>)"
proof -
  let ?w1 = "w\<lparr>clients := AList.delete u (clients w)\<rparr>"
  have w1: "(if has_key (clients w) u then ?w1 else w) = ?w1"
    by (simp add: has_key_def)
  have d1: "distinct (map fst (clients ?w1))"
    using assms by (simp add: AList.distinct_delete)
  have f1: "filter (\<lambda>(v, sk). sk \<notin> broken w) (AList.delete u (clients w))
        = filter (\<lambda>(v, sk). v \<noteq> u \<and> sk \<notin> broken w) (clients w)"
    by (auto simp: AList.delete_eq intro: filter_cong)
  have f2: "AList.delete u (clients w) = filter (\<lambda>(v, sk). v \<noteq> u) (clients w)"
    by (auto simp: AList.delete_eq intro: filter_cong)
  have "disconnect_user w u = broadcast ?w1 (str ''INFO '' @ u @ str '' disconnected'') None"
    unfolding disconnect_user_def w1 ..
  then show ?thesis
    by (simp add: broadcast_eq[OF d1] f1) (simp add: f2 str_def)
qed

lemma teardown_eq:
  assumes "u \<noteq> []" and "distinct (map fst (clients w))"
  shows "teardown (Some u) w s =
     (Ok, w\<lparr>clients := filter (\<lambda>(v, sk). v \<noteq> u \<and> sk \<notin> broken w) (clients w),
            trace := trace w @ map (send_event w (str ''INFO '' @ u @ str '' disconnected\<newline>''))
                      (map snd (filter (\<lambda>(v, sk). v \<noteq> u) (clients w))) @ [Closed s]\<rparr>)"
  using assms(1) by (simp add: teardown_def disconnect_user_eq[OF assms(2)] close_socket_def)

lemma teardown_anonymous:
  "\<not> logged_in username \<Longrightarrow> teardown username w s = (Ok, w\<lparr>trace := trace w @ [Closed s]\<rparr>)"
  by (simp add: teardown_def close_socket_def)

text \<open>
  C5. A \<open>MSG\<close> with a non-empty argument from the connection logged in as \<open>u\<close>: every
  entry of the dictionary under another name has one send of \<open>MSG <u> <argument>\<close>, in
  the order of the dictionary and nothing else is sent, so the entry of \<open>u\<close> has none;
  the sender gets no answer. The very sends that fail make their entries leave the
  dictionary. A \<open>MSG\<close> with an empty argument changes nothing and sends nothing.
\<close>

theorem C5_msg_broadcast:
  "(u \<noteq> [] \<and> arg \<noteq> [] \<and> distinct (map fst (clients w)) \<longrightarrow>
     handle_command (Some u) (str ''MSG'') arg w s =
       (Ok, Some u,
        w\<lparr>clients := filter (\<lambda>(v, sk). \<not> (v \<noteq> u \<and> sk \<in> broken w)) (clients w),
          trace := trace w @ map (send_event w (str ''MSG '' @ u @ str '' '' @ arg @ str ''\<newline>''))
                    (map snd (filter (\<lambda>(v, sk). v \<noteq> u) (clients w)))\<rparr>))
   \<and> (u \<noteq> [] \<longrightarrow> handle_command (Some u) (str ''MSG'') [] w s = (Ok, Some u, w))"
  by (simp add: msg_eq) (simp add: handle_command_def)

text \<open>The theorem at alice's \<open>MSG hi\<close> and at her \<open>MSG\<close> without text.\<close>

theorem C5_msg_broadcast_witness:
  "str ''alice'' \<noteq> [] \<and> str ''hi'' \<noteq> [] \<and> distinct (map fst (clients w_abc))
   \<and> handle_command (Some (str ''alice'')) (str ''MSG'') (str ''hi'') w_abc 1 =
       (Ok, Some (str ''alice''),
        \<lparr>clients = [(str ''alice'', 1), (str ''carol'', 3)], broken = {2},
          trace = [SendFailed 2 (str ''MSG alice hi\<newline>''), Delivered 3 (str ''MSG alice hi\<newline>'')]\<rparr>)
   \<and> handle_command (Some (str ''alice'')) (str ''MSG'') [] w_abc 1 = (Ok, Some (str ''alice''), w_abc)"
  using C5_msg_broadcast[where u = "str ''alice''" and arg = "str ''hi''" and w = w_abc and s = 1]
  by (simp add: w_abc_def str_def send_event_def)



subsection \<open>The keys of the dictionary stay distinct\<close>

lemma broadcast_distinct:
  "distinct (map fst (clients w)) \<Longrightarrow> distinct (map fst (clients (snd (broadcast w message ex))))"
  by (simp add: broadcast_eq distinct_map_filter)

lemma disconnect_user_distinct:
  "distinct (map fst (clients w)) \<Longrightarrow> distinct (map fst (clients (snd (disconnect_user w u))))"
  by (simp add: disconnect_user_eq distinct_map_filter)

lemma respond_clients: "clients (snd (snd (respond username w s text))) = clients w"
  by (simp add: respond_eq)

lemma handle_command_distinct:
  assumes "distinct (map fst (clients w))"
  shows "distinct (map fst (clients (snd (snd (handle_command username cmd arg w s)))))"
proof (cases "logged_in username")
  case False
  have upd: "distinct (map fst (AList.update (strip arg) s (clients w)))"
    using assms by (rule AList.distinct_update)
  show ?thesis
    using False assms upd
    by (simp add: handle_command_def Let_def respond_clients)
next
  case True
  have b: "distinct (map fst (clients (snd (broadcast w m ex))))" for m ex
    using assms by (rule broadcast_distinct)
  show ?thesis
    using True assms b
    by (simp add: handle_command_def respond_clients handle_dm_clients split_beta)
qed

lemma handle_line_distinct:
  "distinct (map fst (clients w)) \<Longrightarrow>
   distinct (map fst (clients (snd (snd (handle_line up username line w s)))))"
  by (simp add: handle_line_def Let_def handle_command_distinct)

lemma handle_buffer_distinct:
  "distinct (map fst (clients w)) \<Longrightarrow>
   distinct (map fst (clients (snd (snd (snd (handle_buffer up username buffer w s))))))"
proof (induction up username buffer w s rule: handle_buffer.induct)
  case (1 up username buffer w s)
  show ?case
  proof (cases "0x0A \<in> set buffer")
    case False
    then show ?thesis using "1.prems" by (subst handle_buffer.simps) simp
  next
    case True
    obtain oc username' w' where
      hl: "handle_line up username (split1 0x0A buffer ! 0) w s = (oc, username', w')"
      by (cases "handle_line up username (split1 0x0A buffer ! 0) w s") auto
    have d': "distinct (map fst (clients w'))"
      using handle_line_distinct[OF "1.prems", of up username "split1 0x0A buffer ! 0" s]
      by (simp add: hl)
    show ?thesis
    proof (cases oc)
      case Ok
      have "distinct (map fst (clients (snd (snd (snd
              (handle_buffer up username' (split1 0x0A buffer ! 1) w' s))))))"
        using True hl Ok d' by (intro "1.IH") simp_all
      then show ?thesis
        using True hl Ok by (subst handle_buffer.simps) simp
    next
      case Raised
      then show ?thesis
        using True hl d' by (subst handle_buffer.simps) simp
    qed
  qed
qed

lemma recv_loop_distinct:
  "distinct (map fst (clients w)) \<Longrightarrow>
   distinct (map fst (clients (snd (recv_loop up username buffer w s chunks))))"
proof (induction chunks arbitrary: username buffer w)
  case Nil
  then show ?case by simp
next
  case (Cons data chunks)
  show ?case
  proof (cases "data = []")
    case True
    then show ?thesis using Cons.prems by simp
  next
    case ne: False
    show ?thesis
    proof (cases "utf8_decode data")
      case None
      then show ?thesis using ne Cons by simp
    next
      case (Some decoded)
      obtain oc username' buffer' w' where
        hb: "handle_buffer up username (buffer @ decoded) w s = (oc, username', buffer', w')"
        by (cases "handle_buffer up username (buffer @ decoded) w s") auto
      have d': "distinct (map fst (clients w'))"
        using handle_buffer_distinct[OF Cons.prems, of up username "buffer @ decoded" s]
        by (simp add: hb)
      show ?thesis
      proof (cases oc)
        case Ok
        then show ?thesis using ne Some hb d' Cons.IH[of w' username' buffer'] by simp
      next
        case Raised
        then show ?thesis using ne Some hb d' by simp
      qed
    qed
  qed
qed

lemma teardown_distinct:
  "distinct (map fst (clients w)) \<Longrightarrow>
   distinct (map fst (clients (snd (teardown username w s))))"
proof (cases "logged_in username")
  case True
  assume d: "distinct (map fst (clients w))"
  from True obtain u where u: "username = Some u" "u \<noteq> []" by (cases username) auto
  show ?thesis using d u by (simp add: teardown_eq distinct_map_filter)
next
  case False
  assume "distinct (map fst (clients w))"
  then show ?thesis using False by (simp add: teardown_anonymous)
qed

lemma handle_client_distinct:
  assumes "distinct (map fst (clients w))"
  shows "distinct (map fst (clients (snd (handle_client up w s chunks))))"
proof -
  let ?w1 = "snd (sendall w s (str ''Welcome! Please login with: LOGIN <username>\<newline>''))"
  have d1: "distinct (map fst (clients ?w1))"
    using assms by (simp add: sendall_eq)
  show ?thesis
  proof (cases "s \<in> broken w")
    case True
    then have "handle_client up w s chunks = teardown None ?w1 s"
      by (simp add: handle_client_def sendall_eq)
    then show ?thesis using teardown_distinct[OF d1] by simp
  next
    case False
    then have "handle_client up w s chunks =
        teardown (fst (recv_loop up None [] ?w1 s chunks)) (snd (recv_loop up None [] ?w1 s chunks)) s"
      by (simp add: handle_client_def sendall_eq split_beta)
    then show ?thesis
      using teardown_distinct[OF recv_loop_distinct[OF d1]] by simp
  qed
qed

text \<open>
  C4. The dictionary has one entry for a name at most. A \<open>LOGIN\<close> from a connection that
  is not logged in, with a name that is a key of the dictionary, is answered
  \<open>ERR username-taken\<close>; the dictionary and the connection's \<open>username\<close> stay as they are.
  Every command, the removal at the end of a connection, a broadcast with its evictions,
  and a whole run of \<open>handle_client\<close> keep the keys distinct.
\<close>

theorem C4_unique_usernames:
  "(\<not> logged_in username \<and> arg \<noteq> [] \<and> strip arg \<noteq> [] \<and> 0x20 \<notin> set (strip arg)
      \<and> has_key (clients w) (strip arg) \<longrightarrow>
      handle_command username (str ''LOGIN'') arg w s =
        (if s \<in> broken w then Raised else Ok, username,
         w\<lparr>trace := trace w @ [send_event w (str ''ERR username-taken\<newline>'') s]\<rparr>))
   \<and> (distinct (map fst (clients w)) \<longrightarrow>
        distinct (map fst (clients (snd (snd (handle_command username cmd arg w s)))))
      \<and> distinct (map fst (clients (snd (disconnect_user w u))))
      \<and> distinct (map fst (clients (snd (broadcast w message exclude_user))))
      \<and> distinct (map fst (clients (snd (handle_client up w s chunks)))))"
  by (simp add: login_taken respond_eq handle_command_distinct disconnect_user_distinct
      broadcast_distinct handle_client_distinct)

text \<open>
  The theorem at \<open>LOGIN bob\<close> on socket 4, bob being registered, and at \<open>LOGIN dave\<close>, which
  adds a fourth key.
\<close>

theorem C4_unique_usernames_witness:
  "\<not> logged_in None \<and> str ''bob'' \<noteq> [] \<and> strip (str ''bob'') \<noteq> []
   \<and> 0x20 \<notin> set (strip (str ''bob'')) \<and> has_key (clients w_abc) (strip (str ''bob''))
   \<and> handle_command None (str ''LOGIN'') (str ''bob'') w_abc 4 =
       (Ok, None, w_abc\<lparr>trace := [Delivered 4 (str ''ERR username-taken\<newline>'')]\<rparr>)
   \<and> distinct (map fst (clients w_abc))
   \<and> distinct (map fst (clients (snd (snd (handle_command None (str ''LOGIN'') (str ''dave'') w_abc 4)))))"
proof -
  have pre: "\<not> logged_in None" "str ''bob'' \<noteq> []" "strip (str ''bob'') \<noteq> []"
    "0x20 \<notin> set (strip (str ''bob''))" "has_key (clients w_abc) (strip (str ''bob''))"
    "distinct (map fst (clients w_abc))"
    by (simp_all add: w_abc_def str_def strip_def isspace_def has_key_def)
  have taken: "handle_command None (str ''LOGIN'') (str ''bob'') w_abc 4 =
       (Ok, None, w_abc\<lparr>trace := [Delivered 4 (str ''ERR username-taken\<newline>'')]\<rparr>)"
    using C4_unique_usernames[where username = None and arg = "str ''bob''" and w = w_abc and s = 4] pre
    by (simp add: w_abc_def send_event_def)
  have keys: "distinct (map fst (clients (snd (snd
        (handle_command None (str ''LOGIN'') (str ''dave'') w_abc 4)))))"
    using C4_unique_usernames[where username = None and arg = "str ''dave''" and w = w_abc
        and s = 4 and cmd = "str ''LOGIN''"] pre(6)
    by blast
  show ?thesis using pre taken keys by blast
qed

lemma handle_client_closes:
  assumes "distinct (map fst (clients w))"
  shows "fst (handle_client up w s chunks) = Ok
    \<and> last (trace (snd (handle_client up w s chunks))) = Closed s"
proof -
  have td: "fst (teardown username w' s) = Ok \<and> last (trace (snd (teardown username w' s))) = Closed s"
    if "distinct (map fst (clients w'))" for username w'
  proof (cases "logged_in username")
    case True
    then obtain u where "username = Some u" "u \<noteq> []" by (cases username) auto
    then show ?thesis using that by (simp add: teardown_eq)
  next
    case False
    then show ?thesis by (simp add: teardown_anonymous)
  qed
  let ?w1 = "snd (sendall w s (str ''Welcome! Please login with: LOGIN <username>\<newline>''))"
  have d1: "distinct (map fst (clients ?w1))"
    using assms by (simp add: sendall_eq)
  show ?thesis
  proof (cases "s \<in> broken w")
    case True
    then have "handle_client up w s chunks = teardown None ?w1 s"
      by (simp add: handle_client_def sendall_eq)
    then show ?thesis using td[OF d1] by simp
  next
    case False
    then have "handle_client up w s chunks =
        teardown (fst (recv_loop up None [] ?w1 s chunks)) (snd (recv_loop up None [] ?w1 s chunks)) s"
      by (simp add: handle_client_def sendall_eq split_beta)
    then show ?thesis
      using td[OF recv_loop_distinct[OF d1]] by simp
  qed
qed

subsection \<open>Chunks and lines\<close>

lemma decode_whole: "utf8_decode (login_cafe_1 @ login_cafe_2) = Some (str ''LOGIN caf'' @ [0xE9, 0x0A])"
  by (simp add: login_cafe_1_def login_cafe_2_def str_def is_cont_def)

lemma decode_first: "utf8_decode login_cafe_1 = None"
  by (simp add: login_cafe_1_def)

lemma decode_second: "utf8_decode login_cafe_2 = None"
  by (simp add: login_cafe_2_def)

lemma chunks_not_empty: "login_cafe_1 \<noteq> []" "login_cafe_2 \<noteq> []" "login_cafe_1 @ login_cafe_2 \<noteq> []"
  by (simp_all add: login_cafe_1_def login_cafe_2_def)

lemma split_run: "recv_loop ascii_upper None [] w0 0 [login_cafe_1, login_cafe_2] = (None, w0)"
  by (simp add: decode_first decode_second chunks_not_empty)

lemma line_run:
  "handle_line ascii_upper None (str ''LOGIN caf'' @ [0xE9]) w0 0 =
     (Ok, Some (str ''caf'' @ [0xE9]),
      \<lparr>clients = [(str ''caf'' @ [0xE9], 0)], broken = {}, trace = [Delivered 0 (str ''OK\<newline>'')]\<rparr>)"
  by (simp add: handle_line_def handle_command_def respond_def split1_def strip_def isspace_def
      ascii_upper_def sendall_def has_key_def w0_def str_def Let_def)

lemma buffer_run:
  "handle_buffer ascii_upper None (str ''LOGIN caf'' @ [0xE9, 0x0A]) w0 0 =
     (Ok, Some (str ''caf'' @ [0xE9]), [],
      \<lparr>clients = [(str ''caf'' @ [0xE9], 0)], broken = {}, trace = [Delivered 0 (str ''OK\<newline>'')]\<rparr>)"
proof -
  have sp: "split1 0x0A (str ''LOGIN caf'' @ [0xE9, 0x0A]) = [str ''LOGIN caf'' @ [0xE9], []]"
    by (simp add: split1_def str_def)
  have nl: "0x0A \<in> set (str ''LOGIN caf'' @ [0xE9, 0x0A])" by simp
  show ?thesis
    by (subst handle_buffer.simps) (simp add: sp line_run, subst handle_buffer.simps, simp)
qed

lemma whole_run:
  "recv_loop ascii_upper None [] w0 0 [login_cafe_1 @ login_cafe_2] =
     (Some (str ''caf'' @ [0xE9]),
      \<lparr>clients = [(str ''caf'' @ [0xE9], 0)], broken = {}, trace = [Delivered 0 (str ''OK\<newline>'')]\<rparr>)"
  using buffer_run by (simp add: decode_whole chunks_not_empty)

lemma ping_run:
  "recv_loop ascii_upper None [] w0 0 [ping_line] =
     (None, \<lparr>clients = [], broken = {}, trace = [Delivered 0 (str ''ERR login-required\<newline>'')]\<rparr>)"
proof -
  have dec: "utf8_decode ping_line = Some (str ''PING\<newline>'')"
    by (simp add: ping_line_def str_def)
  have sp: "split1 0x0A (str ''PING\<newline>'') = [str ''PING'', []]"
    by (simp add: split1_def str_def)
  have ln: "handle_line ascii_upper None (str ''PING'') w0 0 =
     (Ok, None, \<lparr>clients = [], broken = {}, trace = [Delivered 0 (str ''ERR login-required\<newline>'')]\<rparr>)"
    by (simp add: handle_line_def handle_command_def respond_def split1_def strip_def isspace_def
        ascii_upper_def sendall_def w0_def str_def Let_def)
  have nl: "0x0A \<in> set (str ''PING\<newline>'')"
    by (simp add: str_def)
  have buf: "handle_buffer ascii_upper None (str ''PING\<newline>'') w0 0 =
     (Ok, None, [], \<lparr>clients = [], broken = {}, trace = [Delivered 0 (str ''ERR login-required\<newline>'')]\<rparr>)"
    by (subst handle_buffer.simps) (simp add: nl sp ln, subst handle_buffer.simps, simp)
  have "ping_line \<noteq> []" by (simp add: ping_line_def)
  then show ?thesis using buf by (simp add: dec)
qed

lemma ping_bad_run: "recv_loop ascii_upper None [] w0 0 [ping_line @ bad_byte] = (None, w0)"
proof -
  have "utf8_decode (ping_line @ bad_byte) = None"
    by (simp add: ping_line_def bad_byte_def)
  moreover have "ping_line @ bad_byte \<noteq> []"
    by (simp add: ping_line_def)
  ultimately show ?thesis by simp
qed

text \<open>
  C2, at a stream of valid UTF-8 cut inside a character. Received as one chunk, the
  stream is the line \<open>LOGIN caf\<close> with U+00E9 and the name is registered with the answer
  \<open>OK\<close>. Received as two chunks, neither chunk decodes on its own, both are skipped, and
  the line never reaches the command loop: no answer, nothing registered. In the same
  way a chunk with one byte that does not decode takes the complete line before it along:
  \<open>PING\<close> alone is answered, \<open>PING\<close> followed in its chunk by the byte \<open>FF\<close> is not.
\<close>

theorem C2_chunk_boundary:
  "utf8_decode (login_cafe_1 @ login_cafe_2) = Some (str ''LOGIN caf'' @ [0xE9, 0x0A])
   \<and> recv_loop ascii_upper None [] w0 0 [login_cafe_1 @ login_cafe_2] =
       (Some (str ''caf'' @ [0xE9]),
        \<lparr>clients = [(str ''caf'' @ [0xE9], 0)], broken = {},
          trace = [Delivered 0 (str ''OK\<newline>'')]\<rparr>)
   \<and> recv_loop ascii_upper None [] w0 0 [login_cafe_1, login_cafe_2] = (None, w0)
   \<and> recv_loop ascii_upper None [] w0 0 [ping_line] =
       (None, \<lparr>clients = [], broken = {},
               trace = [Delivered 0 (str ''ERR login-required\<newline>'')]\<rparr>)
   \<and> recv_loop ascii_upper None [] w0 0 [ping_line @ bad_byte] = (None, w0)"
  using decode_whole whole_run split_run ping_run ping_bad_run by simp

end
